theory Spec2Isabelle
  imports Complex_Main
begin

section \<open>Values, errors and the outside world\<close>

text \<open>
  The notebooks are dynamically typed. The values that flow through the custom dataset
  are the cells of the annotation table (file names and labels), the tensors produced by
  the image decoder and whatever the two transforms return. A tensor is kept as its shape
  together with its entries in row-major order.
\<close>

datatype pyval = PyStr string | PyInt int | PyTensor "nat list" "real list"

text \<open>
  Every exception the code can let through is a value. The names follow the error taxonomy
  of the specification; each is raised by the library call noted beside it.
  \<^item> \<open>ManifestReadError\<close>: \<^verbatim>\<open>pd.read_csv\<close> cannot read or parse the annotation file;
  \<^item> \<open>IndexOutOfRangeError\<close>: \<^verbatim>\<open>DataFrame.iloc\<close> with a positional index out of bounds
    (Python's IndexError);
  \<^item> \<open>OverflowError\<close>: \<^verbatim>\<open>DataFrame.iloc\<close> with a positional index that does not fit the
    64-bit index type of the underlying arrays;
  \<^item> \<open>TypeError\<close>: \<^verbatim>\<open>os.path.join\<close> given a component that is not a string;
  \<^item> \<open>SampleNotFoundError\<close>: \<^verbatim>\<open>read_image\<close> on a path where no file exists;
  \<^item> \<open>DecodeError\<close>: \<^verbatim>\<open>read_image\<close> on a file that is not a decodable image;
  \<^item> \<open>TransformError\<close>: a transform callable raised (for the one-hot lambda, the
    RuntimeError of \<^verbatim>\<open>scatter_\<close> on an index outside the tensor).
\<close>

datatype error =
    ManifestReadError
  | IndexOutOfRangeError
  | OverflowError
  | TypeError
  | SampleNotFoundError
  | DecodeError
  | TransformError

text \<open>
  The table \<^verbatim>\<open>pd.read_csv\<close> returns: its data rows in order, each row the list of its
  cells. The annotation table of the tutorial has the file name in column 0 and the label
  in column 1.
\<close>

type_synonym dataframe = "pyval list list"

text \<open>
  An annotation file that can be read and tokenised: its first line and the lines after
  it, each line the list of its fields, as many as the first line has. The rows of the
  manifest are all of its lines, in order.
\<close>

datatype csv_file = Csv_file (first_line: "pyval list") (later_lines: "pyval list list")

definition manifest_rows :: "csv_file \<Rightarrow> pyval list list" where
  "manifest_rows f = first_line f # later_lines f"

datatype image_file = Image pyval | Garbage

text \<open>
  What the code reads from outside: for each path the annotation file there (\<open>None\<close> when
  \<^verbatim>\<open>pd.read_csv\<close> cannot read or tokenise what is there, an empty file included), for each
  path the image file there (\<open>None\<close> when there is no file), and the log of the paths
  handed to the image reader so far, oldest first. The log is the only part a call can
  change.
\<close>

record world =
  manifests :: "string \<Rightarrow> csv_file option"
  images :: "string \<Rightarrow> image_file option"
  image_reads :: "string list"

text \<open>
  \<^verbatim>\<open>pd.read_csv(annotation_file)\<close> with every option at its default: \<^verbatim>\<open>header='infer'\<close>
  takes the first line of the file as the column names, and the table holds the lines
  after it.
\<close>

definition read_csv :: "world \<Rightarrow> string \<Rightarrow> error + dataframe" where
  "read_csv w annotation_file =
     (case manifests w annotation_file of
        None \<Rightarrow> Inl ManifestReadError
      | Some (Csv_file header rows) \<Rightarrow> Inr rows)"

definition read_image :: "world \<Rightarrow> string \<Rightarrow> (error + pyval) \<times> world" where
  "read_image w img_path =
     ((case images w img_path of
         None \<Rightarrow> Inl SampleNotFoundError
       | Some Garbage \<Rightarrow> Inl DecodeError
       | Some (Image t) \<Rightarrow> Inr t),
      w\<lparr>image_reads := image_reads w @ [img_path]\<rparr>)"

text \<open>
  \<^verbatim>\<open>df.iloc[idx, col]\<close> with two integers. A row index within \<open>- n \<le> idx < n\<close> selects a
  row, a negative one counting from the end. Any other row index raises: OverflowError
  when it does not fit a signed 64-bit integer, IndexError when it does. A table has fewer
  than \<open>2^63\<close> rows, so an index within the bounds always fits. The code only uses the
  columns 0 and 1, so the column is a natural number; a column the row does not have
  raises IndexError.
\<close>

definition iloc :: "dataframe \<Rightarrow> int \<Rightarrow> nat \<Rightarrow> error + pyval" where
  "iloc df idx col =
     (let n = int (length df) in
      if idx \<ge> n \<or> idx < - n then
        (if idx \<ge> 2 ^ 63 \<or> idx < - (2 ^ 63) then Inl OverflowError
         else Inl IndexOutOfRangeError)
      else
        let row = df ! nat (if idx < 0 then idx + n else idx) in
        if col \<ge> length row then Inl IndexOutOfRangeError
        else Inr (row ! col))"

text \<open>
  \<^verbatim>\<open>os.path.join(a, b)\<close> on a POSIX system: an absolute \<open>b\<close> replaces \<open>a\<close>; otherwise \<open>b\<close> is
  appended, after a separator unless \<open>a\<close> is empty or already ends with one. A component
  that is not a string raises TypeError.
\<close>

definition startswith_sep :: "string \<Rightarrow> bool" where
  "startswith_sep b = (case b of [] \<Rightarrow> False | c # _ \<Rightarrow> c = CHR ''/'')"

definition endswith_sep :: "string \<Rightarrow> bool" where
  "endswith_sep a = (case rev a of [] \<Rightarrow> False | c # _ \<Rightarrow> c = CHR ''/'')"

definition posix_join :: "string \<Rightarrow> string \<Rightarrow> string" where
  "posix_join a b =
     (if startswith_sep b then b
      else if a = [] \<or> endswith_sep a then a @ b
      else a @ ''/'' @ b)"

definition os_path_join :: "string \<Rightarrow> pyval \<Rightarrow> error + string" where
  "os_path_join a v = (case v of PyStr b \<Rightarrow> Inr (posix_join a b) | _ \<Rightarrow> Inl TypeError)"

section \<open>The custom image dataset\<close>

text \<open>
  \<^verbatim>\<open>class CustomImageDatset(Dataset)\<close>: the four attributes \<^verbatim>\<open>__init__\<close> sets. A transform
  is \<^verbatim>\<open>None\<close> or a callable object. A callable may raise when called, and as every Python
  object it has a truth value: true for a function or a \<^verbatim>\<open>Lambda\<close>, false for an object
  whose \<^verbatim>\<open>__bool__\<close> returns false or whose \<^verbatim>\<open>__len__\<close> returns zero.
\<close>

type_synonym transform_fn = "pyval \<Rightarrow> error + pyval"

record callable =
  truth_value :: bool
  invoke :: transform_fn

record CustomImageDatset =
  image_labels :: dataframe
  img_dir :: string
  transform :: "callable option"
  target_transform :: "callable option"

definition init ::
  "world \<Rightarrow> string \<Rightarrow> string \<Rightarrow> callable option \<Rightarrow> callable option
     \<Rightarrow> error + CustomImageDatset" where
  "init w annotation_file image_dir tr target_tr =
     (case read_csv w annotation_file of
        Inl e \<Rightarrow> Inl e
      | Inr df \<Rightarrow>
          Inr \<lparr>image_labels = df, img_dir = image_dir,
               transform = tr, target_transform = target_tr\<rparr>)"

definition len :: "CustomImageDatset \<Rightarrow> int" where
  "len self = int (length (image_labels self))"

text \<open>
  \<^verbatim>\<open>if self.transform: image = self.transform(image)\<close>, and the same for the label. The
  test is Python's truth value: \<^verbatim>\<open>None\<close> is false, and a configured callable is called only
  when its truth value is true.
\<close>

definition apply_transform :: "callable option \<Rightarrow> pyval \<Rightarrow> error + pyval" where
  "apply_transform t x =
     (case t of
        None \<Rightarrow> Inr x
      | Some c \<Rightarrow> if truth_value c then invoke c x else Inr x)"

text \<open>
  \<^verbatim>\<open>__getitem__\<close>, statement by statement: the file name cell, the joined path, the image
  read, the label cell, then the two transforms. The first exception ends the call; the
  world returned is the one reached at that point.
\<close>

definition getitem ::
  "world \<Rightarrow> CustomImageDatset \<Rightarrow> int \<Rightarrow> (error + pyval \<times> pyval) \<times> world" where
  "getitem w self idx =
     (case iloc (image_labels self) idx 0 of
        Inl e \<Rightarrow> (Inl e, w)
      | Inr name \<Rightarrow>
     (case os_path_join (img_dir self) name of
        Inl e \<Rightarrow> (Inl e, w)
      | Inr img_path \<Rightarrow>
     (case read_image w img_path of
        (Inl e, w') \<Rightarrow> (Inl e, w')
      | (Inr img, w') \<Rightarrow>
     (case iloc (image_labels self) idx 1 of
        Inl e \<Rightarrow> (Inl e, w')
      | Inr label \<Rightarrow>
     (case apply_transform (transform self) img of
        Inl e \<Rightarrow> (Inl e, w')
      | Inr img' \<Rightarrow>
     (case apply_transform (target_transform self) label of
        Inl e \<Rightarrow> (Inl e, w')
      | Inr label' \<Rightarrow> (Inr (img', label'), w')))))))"

text \<open>
  A client of the dataset calls its two methods in any order. Each call gets the object
  and may, as any Python method, assign to it; the object after the call is part of what
  a call returns. Neither method contains an assignment to \<^verbatim>\<open>self\<close>.
\<close>

datatype call = Length | GetItem int

datatype outcome = Len_result int | Item_result "error + pyval \<times> pyval"

fun call_method ::
  "world \<times> CustomImageDatset \<Rightarrow> call \<Rightarrow> outcome \<times> (world \<times> CustomImageDatset)" where
  "call_method (w, self) Length = (Len_result (len self), (w, self))"
| "call_method (w, self) (GetItem idx) =
     (case getitem w self idx of (r, w') \<Rightarrow> (Item_result r, (w', self)))"

fun run ::
  "world \<times> CustomImageDatset \<Rightarrow> call list \<Rightarrow> outcome list \<times> (world \<times> CustomImageDatset)" where
  "run st [] = ([], st)"
| "run st (c # cs) =
     (case call_method st c of (r, st') \<Rightarrow>
        (case run st' cs of (rs, st'') \<Rightarrow> (r # rs, st'')))"

section \<open>The one-hot target transform\<close>

text \<open>
  \<^verbatim>\<open>torch.zeros(10, dtype=torch.float).scatter_(dim=0, index=torch.tensor(y), value=1)\<close>:
  a vector of ten zeros with the entry at position \<open>y\<close> overwritten by the value.
  \<^verbatim>\<open>scatter_\<close> raises on an index that is negative or not below the length.
\<close>

definition zeros :: "nat \<Rightarrow> real list" where
  "zeros n = replicate n 0"

definition scatter :: "real list \<Rightarrow> int \<Rightarrow> real \<Rightarrow> error + real list" where
  "scatter xs index v =
     (if 0 \<le> index \<and> index < int (length xs) then Inr (xs[nat index := v])
      else Inl TransformError)"

definition one_hot :: "int \<Rightarrow> error + real list" where
  "one_hot y = scatter (zeros 10) y 1"

text \<open>
  The same lambda as a transform of the dataset: it is handed the label cell. Wrapped in
  \<^verbatim>\<open>Lambda\<close> it is an object without \<^verbatim>\<open>__bool__\<close> or \<^verbatim>\<open>__len__\<close>, so its truth value is true.
\<close>

definition one_hot_transform :: transform_fn where
  "one_hot_transform v =
     (case v of
        PyInt y \<Rightarrow> (case one_hot y of Inl e \<Rightarrow> Inl e | Inr xs \<Rightarrow> Inr (PyTensor [10] xs))
      | _ \<Rightarrow> Inl TransformError)"

definition one_hot_lambda :: callable where
  "one_hot_lambda = \<lparr>truth_value = True, invoke = one_hot_transform\<rparr>"

section \<open>The batch iterator\<close>

text \<open>
  Modelled from the spec: the Batch Iterator of section 4.2 is
  \<^verbatim>\<open>torch.utils.data.DataLoader\<close>, which the notebook only constructs and iterates; its
  code is not part of the sources. The specification gives it a positive batch size and a
  shuffle flag; one pass visits the indices below the store's length, in ascending order
  without shuffling and in the order of the permutation drawn for that pass with it, and
  cuts that order into consecutive batches of the batch size, the last one holding what
  remains.
\<close>

record DataLoader =
  batch_size :: nat
  shuffle :: bool

definition index_order :: "DataLoader \<Rightarrow> nat \<Rightarrow> nat list \<Rightarrow> nat list" where
  "index_order dl n perm = (if shuffle dl then perm else [0..<n])"

function batches :: "nat \<Rightarrow> 'a list \<Rightarrow> 'a list list" where
  "batches b xs = (if b = 0 \<or> xs = [] then [] else take b xs # batches b (drop b xs))"
  by pat_completeness auto
termination
  by (relation "measure (\<lambda>(b, xs). length xs)") auto

definition epoch :: "DataLoader \<Rightarrow> nat \<Rightarrow> nat list \<Rightarrow> nat list list" where
  "epoch dl n perm = batches (batch_size dl) (index_order dl n perm)"

section \<open>What a call reads\<close>

text \<open>
  The path a call hands to the image reader, when it gets that far, and the reads a call
  therefore adds to the log.
\<close>

definition image_path :: "CustomImageDatset \<Rightarrow> int \<Rightarrow> string option" where
  "image_path self idx =
     (case iloc (image_labels self) idx 0 of
        Inl e \<Rightarrow> None
      | Inr name \<Rightarrow>
          (case os_path_join (img_dir self) name of Inl e \<Rightarrow> None | Inr p \<Rightarrow> Some p))"

fun reads_of :: "CustomImageDatset \<Rightarrow> call \<Rightarrow> string list" where
  "reads_of self Length = []"
| "reads_of self (GetItem idx) = (case image_path self idx of None \<Rightarrow> [] | Some p \<Rightarrow> [p])"

section \<open>A small instance\<close>

text \<open>
  An annotation file of four lines in the manifest format, file name and label on every
  line, the first included; the third line names a file that is not on disk. Two datasets
  over the table read from it: one with the one-hot lambda as its target transform, one
  with the same function in a callable whose truth value is false. And an annotation file
  of ten lines with the dataset over it, beside a dataset of ten rows.
\<close>

definition example_rows :: dataframe where
  "example_rows =
     [[PyStr ''boot.png'', PyInt 9],
      [PyStr ''lost.png'', PyInt 3],
      [PyStr ''shirt.png'', PyInt 0]]"

definition example_file :: csv_file where
  "example_file = Csv_file [PyStr ''coat.png'', PyInt 4] example_rows"

definition ten_lines :: csv_file where
  "ten_lines =
     Csv_file [PyStr ''boot.png'', PyInt 9] (replicate 9 [PyStr ''boot.png'', PyInt 9])"

definition example_world :: world where
  "example_world =
     \<lparr>manifests = [''labels.csv'' \<mapsto> example_file, ''ten.csv'' \<mapsto> ten_lines],
      images = [''img/boot.png'' \<mapsto> Image (PyTensor [1, 1, 2] [0, 255]),
                ''img/coat.png'' \<mapsto> Image (PyTensor [1, 1, 2] [8, 8]),
                ''img/shirt.png'' \<mapsto> Image (PyTensor [1, 1, 2] [17, 4])],
      image_reads = []\<rparr>"

definition ten_rows :: CustomImageDatset where
  "ten_rows =
     \<lparr>image_labels = replicate 10 [PyStr ''boot.png'', PyInt 9], img_dir = ''img'',
      transform = None, target_transform = None\<rparr>"

definition example_dataset :: CustomImageDatset where
  "example_dataset =
     \<lparr>image_labels = example_rows, img_dir = ''img'',
      transform = None, target_transform = Some one_hot_lambda\<rparr>"

definition falsy_one_hot :: callable where
  "falsy_one_hot = \<lparr>truth_value = False, invoke = one_hot_transform\<rparr>"

definition falsy_dataset :: CustomImageDatset where
  "falsy_dataset =
     \<lparr>image_labels = example_rows, img_dir = ''img'',
      transform = None, target_transform = Some falsy_one_hot\<rparr>"

definition ten_line_dataset :: CustomImageDatset where
  "ten_line_dataset =
     \<lparr>image_labels = replicate 9 [PyStr ''boot.png'', PyInt 9], img_dir = ''img'',
      transform = None, target_transform = None\<rparr>"

text \<open>
  A feature transform that replaces every image by a single zero, in a callable whose
  truth value is false, and the dataset configured with it.
\<close>

definition blank_image :: transform_fn where
  "blank_image v = Inr (PyTensor [1] [0])"

definition falsy_blank :: callable where
  "falsy_blank = \<lparr>truth_value = False, invoke = blank_image\<rparr>"

definition falsy_feature_dataset :: CustomImageDatset where
  "falsy_feature_dataset =
     \<lparr>image_labels = example_rows, img_dir = ''img'',
      transform = Some falsy_blank, target_transform = None\<rparr>"

section \<open>Properties of the dataset\<close>

lemma iloc_row:
  assumes "0 \<le> i" "i < int (length df)" "df ! nat i = row" "c < length row"
  shows "iloc df i c = Inr (row ! c)"
  using assms by (simp add: iloc_def Let_def)

lemma iloc_row_short:
  assumes "0 \<le> i" "i < int (length df)" "df ! nat i = row" "length row \<le> c"
  shows "iloc df i c = Inl IndexOutOfRangeError"
  using assms by (simp add: iloc_def Let_def)

lemma iloc_out_of_range:
  assumes "(int (length df) \<le> i \<and> i < 2 ^ 63) \<or> (- (2 ^ 63) \<le> i \<and> i < - int (length df))"
  shows "iloc df i c = Inl IndexOutOfRangeError"
  using assms by (auto simp: iloc_def Let_def)

lemma iloc_negative:
  assumes "1 \<le> k" "k \<le> int (length df)"
  shows "iloc df (- k) c = iloc df (int (length df) - k) c"
  using assms by (simp add: iloc_def Let_def)

lemma posix_join_explicit:
  "posix_join a b =
     (if b \<noteq> [] \<and> hd b = CHR ''/'' then b
      else if a = [] \<or> last a = CHR ''/'' then a @ b
      else a @ ''/'' @ b)"
proof -
  have s: "startswith_sep b \<longleftrightarrow> b \<noteq> [] \<and> hd b = CHR ''/''"
    by (cases b) (simp_all add: startswith_sep_def)
  have e: "a \<noteq> [] \<Longrightarrow> endswith_sep a \<longleftrightarrow> last a = CHR ''/''"
    by (cases a rule: rev_cases) (simp_all add: endswith_sep_def)
  show ?thesis
    unfolding posix_join_def s using e by auto
qed

lemma apply_transform_cases:
  "apply_transform t x = Inr y \<longleftrightarrow>
     (case t of
        None \<Rightarrow> y = x
      | Some c \<Rightarrow> if truth_value c then invoke c x = Inr y else y = x)"
  by (auto simp: apply_transform_def split: option.splits)

lemma init_fields:
  assumes "manifests w p = Some f" "init w p d tr ttr = Inr self"
  shows "image_labels self = later_lines f" "img_dir self = d"
    "transform self = tr" "target_transform self = ttr"
    "len self = int (length (manifest_rows f)) - 1"
  using assms
  by (cases f; auto simp: init_def read_csv_def len_def manifest_rows_def)+

text \<open>What a call on a row with a string file name does, in one equation.\<close>

lemma getitem_row:
  assumes "0 \<le> i" "i < len self" "image_labels self ! nat i = PyStr name # rest"
  shows "getitem w self i =
     ((case images w (posix_join (img_dir self) name) of
         None \<Rightarrow> Inl SampleNotFoundError
       | Some Garbage \<Rightarrow> Inl DecodeError
       | Some (Image t) \<Rightarrow>
           (case rest of
              [] \<Rightarrow> Inl IndexOutOfRangeError
            | label # _ \<Rightarrow>
                (case apply_transform (transform self) t of
                   Inl e \<Rightarrow> Inl e
                 | Inr f \<Rightarrow>
                     (case apply_transform (target_transform self) label of
                        Inl e \<Rightarrow> Inl e
                      | Inr l \<Rightarrow> Inr (f, l))))),
      w\<lparr>image_reads := image_reads w @ [posix_join (img_dir self) name]\<rparr>)"
proof -
  from assms have c0: "iloc (image_labels self) i 0 = Inr (PyStr name)"
    using iloc_row [of i "image_labels self" "PyStr name # rest" 0] by (simp add: len_def)
  have c1: "iloc (image_labels self) i (Suc 0) =
      (case rest of [] \<Rightarrow> Inl IndexOutOfRangeError | label # _ \<Rightarrow> Inr label)"
  proof (cases rest)
    case Nil
    with assms show ?thesis
      using iloc_row_short [of i "image_labels self" "[PyStr name]" 1] by (simp add: len_def)
  next
    case (Cons label rest')
    with assms show ?thesis
      using iloc_row [of i "image_labels self" "PyStr name # label # rest'" 1]
      by (simp add: len_def)
  qed
  show ?thesis
    by (simp add: getitem_def c0 c1 os_path_join_def read_image_def
        split: option.splits image_file.splits list.splits sum.splits)
qed

lemma getitem_not_string:
  assumes "0 \<le> i" "i < len self" "image_labels self ! nat i = cell # rest"
    and "\<forall>name. cell \<noteq> PyStr name"
  shows "getitem w self i = (Inl TypeError, w)"
proof -
  from assms have c0: "iloc (image_labels self) i 0 = Inr cell"
    using iloc_row [of i "image_labels self" "cell # rest" 0] by (simp add: len_def)
  from assms(4) show ?thesis
    by (cases cell) (simp_all add: getitem_def c0 os_path_join_def)
qed

text \<open>
  The sample a call returns for a row with a file name and a label, and that nothing else
  is returned for it.
\<close>

lemma getitem_sample:
  assumes "0 \<le> i" "i < len self" "image_labels self ! nat i = PyStr name # label # rest"
  shows "fst (getitem w self i) = Inr (ft, l) \<longleftrightarrow>
     (\<exists>t. images w (posix_join (img_dir self) name) = Some (Image t)
        \<and> apply_transform (transform self) t = Inr ft
        \<and> apply_transform (target_transform self) label = Inr l)"
  unfolding getitem_row [OF assms, of w]
  by (auto split: option.splits image_file.splits sum.splits)

lemma getitem_store_world:
  "manifests (snd (getitem w self i)) = manifests w \<and>
   images (snd (getitem w self i)) = images w \<and>
   image_reads (snd (getitem w self i)) = image_reads w @ reads_of self (GetItem i)"
  by (simp add: getitem_def image_path_def read_image_def split: sum.splits prod.splits)

lemma run_frame:
  "snd (snd (run (w, self) cs)) = self \<and>
   manifests (fst (snd (run (w, self) cs))) = manifests w \<and>
   images (fst (snd (run (w, self) cs))) = images w \<and>
   image_reads (fst (snd (run (w, self) cs))) = image_reads w @ concat (map (reads_of self) cs)"
proof (induction cs arbitrary: w)
  case Nil
  show ?case by simp
next
  case (Cons c cs)
  show ?case
  proof (cases c)
    case Length
    with Cons [of w] show ?thesis by (simp add: split_beta)
  next
    case (GetItem i)
    obtain r w' where g: "getitem w self i = (r, w')" by (cases "getitem w self i")
    with getitem_store_world [of w self i]
    have w': "manifests w' = manifests w" "images w' = images w"
      "image_reads w' = image_reads w @ reads_of self (GetItem i)" by simp_all
    with Cons [of w'] GetItem g show ?thesis by (simp add: split_beta)
  qed
qed

lemma run_len_results:
  "r \<in> set (fst (run (w, self) cs)) \<Longrightarrow> r = Len_result v \<Longrightarrow> v = len self"
proof (induction cs arbitrary: w)
  case Nil
  then show ?case by simp
next
  case (Cons c cs)
  show ?case
  proof (cases c)
    case Length
    with Cons.prems have "v = len self \<or> r \<in> set (fst (run (w, self) cs))"
      by (auto simp: split_beta)
    with Cons.IH [of w] Cons.prems(2) show ?thesis by blast
  next
    case (GetItem i)
    with Cons.prems have "r \<in> set (fst (run (snd (getitem w self i), self) cs))"
      by (auto simp: split_beta)
    with Cons.IH Cons.prems(2) show ?thesis by blast
  qed
qed

lemma example_paths:
  "posix_join ''img'' ''boot.png'' = ''img/boot.png''"
  "posix_join ''img'' ''lost.png'' = ''img/lost.png''"
  "posix_join ''img'' ''shirt.png'' = ''img/shirt.png''"
  by (simp_all add: posix_join_def startswith_sep_def endswith_sep_def)

lemma one_hot_zero:
  "one_hot_transform (PyInt 0) = Inr (PyTensor [10] [1, 0, 0, 0, 0, 0, 0, 0, 0, 0])"
  by (simp add: one_hot_transform_def one_hot_def scatter_def zeros_def numeral_eq_Suc)

lemma one_hot_four:
  "one_hot_transform (PyInt 4) = Inr (PyTensor [10] [0, 0, 0, 0, 1, 0, 0, 0, 0, 0])"
  by (simp add: one_hot_transform_def one_hot_def scatter_def zeros_def numeral_eq_Suc)

lemma one_hot_nine:
  "one_hot_transform (PyInt 9) = Inr (PyTensor [10] [0, 0, 0, 0, 0, 0, 0, 0, 0, 1])"
  by (simp add: one_hot_transform_def one_hot_def scatter_def zeros_def numeral_eq_Suc)

lemma example_init:
  "manifests example_world ''labels.csv'' = Some example_file"
  "init example_world ''labels.csv'' ''img'' None (Some one_hot_lambda) = Inr example_dataset"
  "init example_world ''labels.csv'' ''img'' None (Some falsy_one_hot) = Inr falsy_dataset"
  "init example_world ''labels.csv'' ''img'' (Some falsy_blank) None = Inr falsy_feature_dataset"
  by (simp_all add: init_def read_csv_def example_world_def example_file_def
      example_dataset_def falsy_dataset_def falsy_feature_dataset_def)

lemma example_getitem_0:
  "getitem example_world example_dataset 0
     = (Inr (PyTensor [1, 1, 2] [0, 255], PyTensor [10] [0, 0, 0, 0, 0, 0, 0, 0, 0, 1]),
        example_world\<lparr>image_reads := [''img/boot.png'']\<rparr>)"
  "getitem example_world falsy_dataset 0
     = (Inr (PyTensor [1, 1, 2] [0, 255], PyInt 9),
        example_world\<lparr>image_reads := [''img/boot.png'']\<rparr>)"
  "getitem example_world falsy_feature_dataset 0
     = (Inr (PyTensor [1, 1, 2] [0, 255], PyInt 9),
        example_world\<lparr>image_reads := [''img/boot.png'']\<rparr>)"
  by (simp_all add: getitem_def iloc_def example_dataset_def falsy_dataset_def
      falsy_feature_dataset_def example_rows_def os_path_join_def example_paths
      read_image_def example_world_def apply_transform_def one_hot_lambda_def
      falsy_one_hot_def falsy_blank_def one_hot_nine)

text \<open>
  Index \<open>0\<close> of the dataset over the four-line file. Row 0 of the manifest is the coat with
  label 4, and the call returns the boot of row 1 with the one-hot vector of label 9. With
  the one-hot function configured in a callable whose truth value is false, the call
  returns the label cell 9 itself, not the function's result on it.
\<close>

theorem getitem_label_counterexample:
  "init example_world ''labels.csv'' ''img'' None (Some one_hot_lambda) = Inr example_dataset
   \<and> manifest_rows example_file ! 0 = [PyStr ''coat.png'', PyInt 4]
   \<and> invoke one_hot_lambda (PyInt 4) = Inr (PyTensor [10] [0, 0, 0, 0, 1, 0, 0, 0, 0, 0])
   \<and> fst (getitem example_world example_dataset 0)
       = Inr (PyTensor [1, 1, 2] [0, 255], PyTensor [10] [0, 0, 0, 0, 0, 0, 0, 0, 0, 1])
   \<and> init example_world ''labels.csv'' ''img'' None (Some falsy_one_hot) = Inr falsy_dataset
   \<and> target_transform falsy_dataset = Some falsy_one_hot
   \<and> manifest_rows example_file ! 1 = [PyStr ''boot.png'', PyInt 9]
   \<and> invoke falsy_one_hot (PyInt 9) = Inr (PyTensor [10] [0, 0, 0, 0, 0, 0, 0, 0, 0, 1])
   \<and> fst (getitem example_world falsy_dataset 0)
       = Inr (PyTensor [1, 1, 2] [0, 255], PyInt 9)"
proof -
  have r: "manifest_rows example_file ! 0 = [PyStr ''coat.png'', PyInt 4]"
    "manifest_rows example_file ! 1 = [PyStr ''boot.png'', PyInt 9]"
    by (simp_all add: manifest_rows_def example_file_def example_rows_def)
  have t: "invoke one_hot_lambda (PyInt 4) = Inr (PyTensor [10] [0, 0, 0, 0, 1, 0, 0, 0, 0, 0])"
    "invoke falsy_one_hot (PyInt 9) = Inr (PyTensor [10] [0, 0, 0, 0, 0, 0, 0, 0, 0, 1])"
    by (simp_all add: one_hot_lambda_def falsy_one_hot_def one_hot_four one_hot_nine)
  have c: "target_transform falsy_dataset = Some falsy_one_hot"
    by (simp add: falsy_dataset_def)
  have g: "fst (getitem example_world example_dataset 0)
       = Inr (PyTensor [1, 1, 2] [0, 255], PyTensor [10] [0, 0, 0, 0, 0, 0, 0, 0, 0, 1])"
    "fst (getitem example_world falsy_dataset 0)
       = Inr (PyTensor [1, 1, 2] [0, 255], PyInt 9)"
    by (simp_all only: example_getitem_0 fst_conv)
  show ?thesis
    by (intro conjI) (rule example_init r t c g)+
qed

text \<open>
  C1, as amended. \<^verbatim>\<open>pd.read_csv\<close> takes the first row of the manifest as the header, so
  index \<open>i\<close> of the store is row \<open>i + 1\<close> of the manifest, and a configured target transform
  is called only when its truth value is true. For a store constructed from the manifest
  \<open>f\<close> and \<open>0 \<le> i < len\<close>, where row \<open>i + 1\<close> of \<open>f\<close> has a file name cell and a label cell:
  every sample \<open>getitem\<close> returns carries that row's label, as the transform's result on it
  when a target transform is configured and true and as the cell itself otherwise; and the
  sample is returned whenever the row's image file decodes and the transforms that are
  called do not raise.
\<close>

theorem getitem_label:
  assumes "manifests w0 p = Some f" and "init w0 p d tr ttr = Inr self"
    and "0 \<le> i" and "i < len self"
    and "manifest_rows f ! Suc (nat i) = cell # label # rest"
  shows "(\<forall>ft l. fst (getitem w self i) = Inr (ft, l) \<longrightarrow>
            (case ttr of
               None \<Rightarrow> l = label
             | Some c \<Rightarrow> if truth_value c then invoke c label = Inr l else l = label))
       \<and> (\<forall>name t ft l.
            cell = PyStr name
            \<and> images w (posix_join d name) = Some (Image t)
            \<and> (case tr of
                 None \<Rightarrow> ft = t
               | Some c \<Rightarrow> if truth_value c then invoke c t = Inr ft else ft = t)
            \<and> (case ttr of
                 None \<Rightarrow> l = label
               | Some c \<Rightarrow> if truth_value c then invoke c label = Inr l else l = label)
            \<longrightarrow> fst (getitem w self i) = Inr (ft, l))"
proof -
  note fl = init_fields [OF assms(1,2)]
  from assms(5) have row: "image_labels self ! nat i = cell # label # rest"
    by (simp add: fl manifest_rows_def)
  show ?thesis
  proof (cases "\<exists>name. cell = PyStr name")
    case True
    then obtain name where c: "cell = PyStr name" ..
    with row have r: "image_labels self ! nat i = PyStr name # label # rest" by simp
    note g = getitem_sample [OF assms(3,4) r, of w, unfolded fl]
    show ?thesis
      unfolding g apply_transform_cases [symmetric] using c by auto
  next
    case False
    then have "\<forall>name. cell \<noteq> PyStr name" by simp
    from getitem_not_string [OF assms(3,4) row this, of w] False show ?thesis by simp
  qed
qed

theorem getitem_label_witness:
  "manifests example_world ''labels.csv'' = Some example_file
   \<and> init example_world ''labels.csv'' ''img'' None (Some one_hot_lambda) = Inr example_dataset
   \<and> 0 \<le> (2::int) \<and> 2 < len example_dataset
   \<and> manifest_rows example_file ! Suc (nat 2) = [PyStr ''shirt.png'', PyInt 0]
   \<and> truth_value one_hot_lambda
   \<and> invoke one_hot_lambda (PyInt 0) = Inr (PyTensor [10] [1, 0, 0, 0, 0, 0, 0, 0, 0, 0])
   \<and> fst (getitem example_world example_dataset 2)
       = Inr (PyTensor [1, 1, 2] [17, 4], PyTensor [10] [1, 0, 0, 0, 0, 0, 0, 0, 0, 0])"
proof -
  have h: "0 \<le> (2::int)" "2 < len example_dataset"
    "manifest_rows example_file ! Suc (nat 2) = PyStr ''shirt.png'' # PyInt 0 # []"
    by (simp_all add: example_dataset_def example_rows_def len_def manifest_rows_def
        example_file_def numeral_eq_Suc)
  have tv: "truth_value one_hot_lambda"
    "invoke one_hot_lambda (PyInt 0) = Inr (PyTensor [10] [1, 0, 0, 0, 0, 0, 0, 0, 0, 0])"
    by (simp_all add: one_hot_lambda_def one_hot_zero)
  have im: "images example_world (posix_join ''img'' ''shirt.png'')
      = Some (Image (PyTensor [1, 1, 2] [17, 4]))"
    by (simp add: example_world_def example_paths)
  have tr: "(case None :: callable option of
               None \<Rightarrow> PyTensor [1, 1, 2] [17, 4] = PyTensor [1, 1, 2] [17, 4]
             | Some c \<Rightarrow> if truth_value c
                 then invoke c (PyTensor [1, 1, 2] [17, 4]) = Inr (PyTensor [1, 1, 2] [17, 4])
                 else PyTensor [1, 1, 2] [17, 4] = PyTensor [1, 1, 2] [17, 4])"
    by simp
  have tt: "(case Some one_hot_lambda of
               None \<Rightarrow> PyTensor [10] [1, 0, 0, 0, 0, 0, 0, 0, 0, 0] = PyInt 0
             | Some c \<Rightarrow> if truth_value c
                 then invoke c (PyInt 0) = Inr (PyTensor [10] [1, 0, 0, 0, 0, 0, 0, 0, 0, 0])
                 else PyTensor [10] [1, 0, 0, 0, 0, 0, 0, 0, 0, 0] = PyInt 0)"
    using tv by simp
  from getitem_label [OF example_init(1,2) h, of example_world] im tr tt
  have "fst (getitem example_world example_dataset 2)
       = Inr (PyTensor [1, 1, 2] [17, 4], PyTensor [10] [1, 0, 0, 0, 0, 0, 0, 0, 0, 0])"
    by blast
  with example_init(1,2) h tv show ?thesis by simp
qed


text \<open>
  A manifest of ten rows gives a store of length nine.
\<close>

theorem len_rows_counterexample:
  "manifests example_world ''ten.csv'' = Some ten_lines
   \<and> length (manifest_rows ten_lines) = 10
   \<and> init example_world ''ten.csv'' ''img'' None None = Inr ten_line_dataset
   \<and> len ten_line_dataset = 9"
  by (simp add: example_world_def manifest_rows_def ten_lines_def init_def read_csv_def
      ten_line_dataset_def len_def)

text \<open>
  C2, as amended. Constructing a dataset from a manifest \<open>f\<close> that \<^verbatim>\<open>pd.read_csv\<close> can read
  succeeds, and \<open>len\<close> is the number of rows of \<open>f\<close> less one, the first row being taken
  as the header: at once, as the result of every \<open>Length\<close> call in any sequence of calls,
  and on the object left by any such sequence.
\<close>

theorem len_rows:
  assumes "manifests w p = Some f"
  shows "\<exists>self. init w p d tr ttr = Inr self
           \<and> len self = int (length (manifest_rows f)) - 1
           \<and> (\<forall>w' cs v. Len_result v \<in> set (fst (run (w', self) cs))
                 \<longrightarrow> v = int (length (manifest_rows f)) - 1)
           \<and> (\<forall>w' cs. len (snd (snd (run (w', self) cs))) = int (length (manifest_rows f)) - 1)"
proof -
  define self where
    "self = \<lparr>image_labels = later_lines f, img_dir = d, transform = tr, target_transform = ttr\<rparr>"
  have i: "init w p d tr ttr = Inr self"
    using assms by (cases f) (simp add: init_def read_csv_def self_def)
  have l: "len self = int (length (manifest_rows f)) - 1"
    using init_fields(5) [OF assms i] .
  have r: "\<forall>w' cs v. Len_result v \<in> set (fst (run (w', self) cs))
      \<longrightarrow> v = int (length (manifest_rows f)) - 1"
    using run_len_results [of _ _ self] l by auto
  have s: "\<forall>w' cs. len (snd (snd (run (w', self) cs))) = int (length (manifest_rows f)) - 1"
    using run_frame [of _ self] l by simp
  from i l r s show ?thesis by blast
qed

theorem len_rows_witness:
  "manifests example_world ''labels.csv'' = Some example_file
   \<and> length (manifest_rows example_file) = 4
   \<and> init example_world ''labels.csv'' ''img'' None (Some one_hot_lambda) = Inr example_dataset
   \<and> len example_dataset = 3
   \<and> fst (run (example_world, example_dataset) [Length, GetItem 0, Length])
       = [Len_result 3,
          Item_result (Inr (PyTensor [1, 1, 2] [0, 255],
                            PyTensor [10] [0, 0, 0, 0, 0, 0, 0, 0, 0, 1])),
          Len_result 3]"
proof -
  have n: "length (manifest_rows example_file) = 4"
    by (simp add: manifest_rows_def example_file_def example_rows_def)
  from len_rows [OF example_init(1), of "''img''" None "Some one_hot_lambda"]
  obtain self where s: "init example_world ''labels.csv'' ''img'' None (Some one_hot_lambda) = Inr self"
    "len self = int (length (manifest_rows example_file)) - 1" by blast
  with example_init(2) n have l: "len example_dataset = 3" by simp
  have "fst (run (example_world, example_dataset) [Length, GetItem 0, Length])
       = [Len_result 3,
          Item_result (Inr (PyTensor [1, 1, 2] [0, 255],
                            PyTensor [10] [0, 0, 0, 0, 0, 0, 0, 0, 0, 1])),
          Len_result 3]"
    using example_getitem_0(1) l by (simp add: split_beta)
  with example_init(1,2) n l show ?thesis by simp
qed

text \<open>
  Index \<open>0\<close> of the dataset over the four-line file, configured with a feature transform
  whose truth value is false. Row 0 of the manifest names the coat, and the call reads the
  boot of row 1; the feature returned is the decoded boot, not the transform's result on
  it.
\<close>

theorem getitem_feature_counterexample:
  "init example_world ''labels.csv'' ''img'' (Some falsy_blank) None = Inr falsy_feature_dataset
   \<and> transform falsy_feature_dataset = Some falsy_blank
   \<and> manifest_rows example_file ! 0 = [PyStr ''coat.png'', PyInt 4]
   \<and> images example_world ''img/coat.png'' = Some (Image (PyTensor [1, 1, 2] [8, 8]))
   \<and> images example_world ''img/boot.png'' = Some (Image (PyTensor [1, 1, 2] [0, 255]))
   \<and> invoke falsy_blank (PyTensor [1, 1, 2] [0, 255]) = Inr (PyTensor [1] [0])
   \<and> image_reads example_world = []
   \<and> image_reads (snd (getitem example_world falsy_feature_dataset 0)) = [''img/boot.png'']
   \<and> fst (getitem example_world falsy_feature_dataset 0)
       = Inr (PyTensor [1, 1, 2] [0, 255], PyInt 9)"
proof -
  have c: "transform falsy_feature_dataset = Some falsy_blank"
    by (simp add: falsy_feature_dataset_def)
  have r: "manifest_rows example_file ! 0 = [PyStr ''coat.png'', PyInt 4]"
    by (simp add: manifest_rows_def example_file_def)
  have im: "images example_world ''img/coat.png'' = Some (Image (PyTensor [1, 1, 2] [8, 8]))"
    "images example_world ''img/boot.png'' = Some (Image (PyTensor [1, 1, 2] [0, 255]))"
    "image_reads example_world = []"
    by (simp_all add: example_world_def)
  have t: "invoke falsy_blank (PyTensor [1, 1, 2] [0, 255]) = Inr (PyTensor [1] [0])"
    by (simp add: falsy_blank_def blank_image_def)
  have g: "image_reads (snd (getitem example_world falsy_feature_dataset 0)) = [''img/boot.png'']"
    "fst (getitem example_world falsy_feature_dataset 0)
       = Inr (PyTensor [1, 1, 2] [0, 255], PyInt 9)"
    by (simp_all add: example_getitem_0)
  show ?thesis
    by (intro conjI) (rule example_init c r im t g)+
qed

text \<open>
  C3, as amended. For a store constructed from the manifest \<open>f\<close> with image directory \<open>d\<close>
  and \<open>0 \<le> i < len\<close>, where row \<open>i + 1\<close> of \<open>f\<close> starts with the file name \<open>name\<close>:
  \<open>getitem\<close> hands the image reader one path, that of \<^verbatim>\<open>os.path.join(d, name)\<close>, which is
  \<open>name\<close> when it starts with a slash, \<open>d\<close> followed by \<open>name\<close> when \<open>d\<close> is empty or ends
  with a slash, and \<open>d\<close>, a slash and \<open>name\<close> otherwise. A returned feature is the tensor
  decoded from the file at that path, passed through the feature transform when one is
  configured and its truth value is true; and the sample is returned whenever the file
  decodes, the row has a label and the transforms that are called do not raise.
\<close>

theorem getitem_feature:
  assumes "manifests w0 p = Some f" and "init w0 p d tr ttr = Inr self"
    and "0 \<le> i" and "i < len self"
    and "manifest_rows f ! Suc (nat i) = PyStr name # rest"
    and "path = (if name \<noteq> [] \<and> hd name = CHR ''/'' then name
                 else if d = [] \<or> last d = CHR ''/'' then d @ name
                 else d @ ''/'' @ name)"
  shows "image_reads (snd (getitem w self i)) = image_reads w @ [path]
       \<and> (\<forall>ft l. fst (getitem w self i) = Inr (ft, l) \<longrightarrow>
            (\<exists>t. images w path = Some (Image t)
                \<and> (case tr of
                     None \<Rightarrow> ft = t
                   | Some c \<Rightarrow> if truth_value c then invoke c t = Inr ft else ft = t)))
       \<and> (\<forall>t label rest' ft l.
            images w path = Some (Image t)
            \<and> rest = label # rest'
            \<and> (case tr of
                 None \<Rightarrow> ft = t
               | Some c \<Rightarrow> if truth_value c then invoke c t = Inr ft else ft = t)
            \<and> (case ttr of
                 None \<Rightarrow> l = label
               | Some c \<Rightarrow> if truth_value c then invoke c label = Inr l else l = label)
            \<longrightarrow> fst (getitem w self i) = Inr (ft, l))"
proof -
  note fl = init_fields [OF assms(1,2)]
  from assms(5) have row: "image_labels self ! nat i = PyStr name # rest"
    by (simp add: fl manifest_rows_def)
  have pj: "posix_join (img_dir self) name = path"
    unfolding assms(6) fl by (rule posix_join_explicit)
  note g = getitem_row [OF assms(3,4) row, of w, unfolded pj]
  have p1: "image_reads (snd (getitem w self i)) = image_reads w @ [path]"
    by (simp add: g)
  have p2: "\<forall>ft l. fst (getitem w self i) = Inr (ft, l) \<longrightarrow>
            (\<exists>t. images w path = Some (Image t)
                \<and> (case tr of
                     None \<Rightarrow> ft = t
                   | Some c \<Rightarrow> if truth_value c then invoke c t = Inr ft else ft = t))"
    unfolding g apply_transform_cases [symmetric] fl
    by (auto split: option.splits image_file.splits sum.splits list.splits)
  have p3: "\<forall>t label rest' ft l.
            images w path = Some (Image t)
            \<and> rest = label # rest'
            \<and> (case tr of
                 None \<Rightarrow> ft = t
               | Some c \<Rightarrow> if truth_value c then invoke c t = Inr ft else ft = t)
            \<and> (case ttr of
                 None \<Rightarrow> l = label
               | Some c \<Rightarrow> if truth_value c then invoke c label = Inr l else l = label)
            \<longrightarrow> fst (getitem w self i) = Inr (ft, l)"
    unfolding g apply_transform_cases [symmetric] fl by auto
  from p1 p2 p3 show ?thesis by blast
qed

theorem getitem_feature_witness:
  "manifests example_world ''labels.csv'' = Some example_file
   \<and> init example_world ''labels.csv'' ''img'' None (Some one_hot_lambda) = Inr example_dataset
   \<and> 0 \<le> (0::int) \<and> 0 < len example_dataset
   \<and> manifest_rows example_file ! Suc (nat 0) = [PyStr ''boot.png'', PyInt 9]
   \<and> image_reads (snd (getitem example_world example_dataset 0)) = [''img/boot.png'']
   \<and> images example_world ''img/boot.png'' = Some (Image (PyTensor [1, 1, 2] [0, 255]))
   \<and> fst (getitem example_world example_dataset 0)
       = Inr (PyTensor [1, 1, 2] [0, 255], PyTensor [10] [0, 0, 0, 0, 0, 0, 0, 0, 0, 1])"
proof -
  have h: "0 \<le> (0::int)" "0 < len example_dataset"
    "manifest_rows example_file ! Suc (nat 0) = PyStr ''boot.png'' # [PyInt 9]"
    by (simp_all add: example_dataset_def example_rows_def len_def manifest_rows_def
        example_file_def)
  have pth: "''img/boot.png'' =
      (if ''boot.png'' \<noteq> [] \<and> hd ''boot.png'' = CHR ''/'' then ''boot.png''
       else if ''img'' = [] \<or> last ''img'' = CHR ''/'' then ''img'' @ ''boot.png''
       else ''img'' @ ''/'' @ ''boot.png'')"
    by simp
  have im: "images example_world ''img/boot.png'' = Some (Image (PyTensor [1, 1, 2] [0, 255]))"
    "image_reads example_world = []"
    by (simp_all add: example_world_def)
  have tr: "(case None :: callable option of
               None \<Rightarrow> PyTensor [1, 1, 2] [0, 255] = PyTensor [1, 1, 2] [0, 255]
             | Some c \<Rightarrow> if truth_value c
                 then invoke c (PyTensor [1, 1, 2] [0, 255]) = Inr (PyTensor [1, 1, 2] [0, 255])
                 else PyTensor [1, 1, 2] [0, 255] = PyTensor [1, 1, 2] [0, 255])"
    by simp
  have tt: "(case Some one_hot_lambda of
               None \<Rightarrow> PyTensor [10] [0, 0, 0, 0, 0, 0, 0, 0, 0, 1] = PyInt 9
             | Some c \<Rightarrow> if truth_value c
                 then invoke c (PyInt 9) = Inr (PyTensor [10] [0, 0, 0, 0, 0, 0, 0, 0, 0, 1])
                 else PyTensor [10] [0, 0, 0, 0, 0, 0, 0, 0, 0, 1] = PyInt 9)"
    by (simp add: one_hot_lambda_def one_hot_nine)
  note t = getitem_feature [OF example_init(1,2) h pth, of example_world]
  from t im(2) have r: "image_reads (snd (getitem example_world example_dataset 0)) = [''img/boot.png'']"
    by simp
  from t im(1) tr tt have "fst (getitem example_world example_dataset 0)
       = Inr (PyTensor [1, 1, 2] [0, 255], PyTensor [10] [0, 0, 0, 0, 0, 0, 0, 0, 0, 1])"
    by blast
  with example_init(1,2) h r im(1) show ?thesis by simp
qed


text \<open>
  Two indices outside \<open>0 \<le> i < len\<close> on the three-row dataset: \<open>-1\<close> returns the sample of
  the last row, and \<open>2^63\<close> fails with OverflowError.
\<close>

theorem getitem_invalid_index_counterexample:
  "\<not> (0 \<le> (- 1::int) \<and> - 1 < len example_dataset)
   \<and> fst (getitem example_world example_dataset (- 1))
       = Inr (PyTensor [1, 1, 2] [17, 4], PyTensor [10] [1, 0, 0, 0, 0, 0, 0, 0, 0, 0])
   \<and> \<not> (0 \<le> (2 ^ 63::int) \<and> 2 ^ 63 < len example_dataset)
   \<and> fst (getitem example_world example_dataset (2 ^ 63)) = Inl OverflowError"
proof -
  have l: "len example_dataset = 3" by (simp add: len_def example_dataset_def example_rows_def)
  have a: "fst (getitem example_world example_dataset (- 1))
       = Inr (PyTensor [1, 1, 2] [17, 4], PyTensor [10] [1, 0, 0, 0, 0, 0, 0, 0, 0, 0])"
    by (simp add: getitem_def iloc_def example_dataset_def example_rows_def os_path_join_def
        example_paths read_image_def example_world_def apply_transform_def one_hot_lambda_def
        one_hot_zero)
  have b: "fst (getitem example_world example_dataset (2 ^ 63)) = Inl OverflowError"
    by (simp add: getitem_def iloc_def example_dataset_def example_rows_def)
  from l a b show ?thesis by simp
qed

text \<open>
  C4, as amended. Every index \<open>i\<close> with \<open>len \<le> i < 2^63\<close> or \<open>- 2^63 \<le> i < - len\<close> fails
  with IndexOutOfRangeError, before any file is read; in particular \<open>i = len\<close>, such as
  index 10 on ten rows.
\<close>

theorem getitem_out_of_range:
  assumes "(len self \<le> i \<and> i < 2 ^ 63) \<or> (- (2 ^ 63) \<le> i \<and> i < - len self)"
  shows "getitem w self i = (Inl IndexOutOfRangeError, w)"
proof -
  from assms have "iloc (image_labels self) i 0 = Inl IndexOutOfRangeError"
    unfolding len_def by (rule iloc_out_of_range)
  then show ?thesis by (simp add: getitem_def)
qed

theorem getitem_out_of_range_witness:
  "len ten_rows = 10
   \<and> getitem example_world ten_rows 10 = (Inl IndexOutOfRangeError, example_world)
   \<and> getitem example_world ten_rows (- 11) = (Inl IndexOutOfRangeError, example_world)"
proof -
  have l: "len ten_rows = 10" by (simp add: len_def ten_rows_def)
  then have a: "(len ten_rows \<le> 10 \<and> (10::int) < 2 ^ 63)
      \<or> (- (2 ^ 63) \<le> (10::int) \<and> 10 < - len ten_rows)"
    and b: "(len ten_rows \<le> - 11 \<and> (- 11::int) < 2 ^ 63)
      \<or> (- (2 ^ 63) \<le> (- 11::int) \<and> - 11 < - len ten_rows)" by simp_all
  have "getitem example_world ten_rows 10 = (Inl IndexOutOfRangeError, example_world)"
    using a by (rule getitem_out_of_range)
  moreover have "getitem example_world ten_rows (- 11) = (Inl IndexOutOfRangeError, example_world)"
    using b by (rule getitem_out_of_range)
  ultimately have "getitem example_world ten_rows 10 = (Inl IndexOutOfRangeError, example_world)
    \<and> getitem example_world ten_rows (- 11) = (Inl IndexOutOfRangeError, example_world)"
    by simp
  with l show ?thesis by simp
qed



text \<open>
  C6. After any sequence of \<open>Length\<close> and \<open>GetItem\<close> calls the dataset object is the one
  the sequence started with, and so are the annotation files and the image files of the
  world. Nothing is cached: the read log grows by one read of the row's path for every
  \<open>GetItem\<close> call that reaches the image reader, repeated calls included, and what a call
  returns does not depend on the reads made before it.
\<close>

theorem run_immutable:
  "snd (snd (run (w, self) cs)) = self
   \<and> manifests (fst (snd (run (w, self) cs))) = manifests w
   \<and> images (fst (snd (run (w, self) cs))) = images w
   \<and> image_reads (fst (snd (run (w, self) cs)))
       = image_reads w @ concat (map (reads_of self) cs)
   \<and> fst (getitem (w\<lparr>image_reads := earlier\<rparr>) self i) = fst (getitem w self i)"
proof -
  have "fst (getitem (w\<lparr>image_reads := earlier\<rparr>) self i) = fst (getitem w self i)"
    by (simp add: getitem_def read_image_def split: sum.splits option.splits image_file.splits)
  with run_frame [of w self cs] show ?thesis by simp
qed

theorem run_immutable_witness:
  "snd (snd (run (example_world, example_dataset) [GetItem 0, Length, GetItem 0]))
     = example_dataset
   \<and> images (fst (snd (run (example_world, example_dataset) [GetItem 0, Length, GetItem 0])))
     = images example_world
   \<and> image_reads (fst (snd (run (example_world, example_dataset) [GetItem 0, Length, GetItem 0])))
     = [''img/boot.png'', ''img/boot.png'']"
proof -
  have "image_path example_dataset 0 = Some ''img/boot.png''"
    by (simp add: image_path_def iloc_def example_dataset_def example_rows_def
        os_path_join_def example_paths)
  then have "concat (map (reads_of example_dataset) [GetItem 0, Length, GetItem 0])
      = [''img/boot.png'', ''img/boot.png'']" by simp
  moreover have "image_reads example_world = []" by (simp add: example_world_def)
  ultimately show ?thesis
    using run_immutable [of example_world example_dataset "[GetItem 0, Length, GetItem 0]"]
    by simp
qed

text \<open>
  Index \<open>-2\<close> on the three-row dataset: the row it selects names a file that is not on
  disk, and the call fails with SampleNotFoundError.
\<close>

theorem getitem_negative_counterexample:
  "(1::int) \<le> 2 \<and> 2 \<le> len example_dataset
   \<and> fst (getitem example_world example_dataset (- 2)) = Inl SampleNotFoundError"
proof -
  have l: "len example_dataset = 3" by (simp add: len_def example_dataset_def example_rows_def)
  have "fst (getitem example_world example_dataset (- 2)) = Inl SampleNotFoundError"
    by (simp add: getitem_def iloc_def example_dataset_def example_rows_def os_path_join_def
        example_paths read_image_def example_world_def)
  with l show ?thesis by simp
qed

text \<open>
  C10, as amended. For \<open>1 \<le> k \<le> len\<close> the call \<open>getitem (- k)\<close> is the call
  \<open>getitem (len - k)\<close>, in its result and in its reads: a negative index counts from the
  end. Where row \<open>len - k\<close> of the table starts with the file name \<open>name\<close>, the call reads
  the file at the joined path; it returns that row's sample, feature and label passed
  through the transforms whose truth value is true, whenever the file decodes and those
  transforms do not raise, and it fails with SampleNotFoundError when there is no such
  file.
\<close>

theorem getitem_negative:
  assumes "1 \<le> k" and "k \<le> len self"
    and "path = (if name \<noteq> [] \<and> hd name = CHR ''/'' then name
                 else if img_dir self = [] \<or> last (img_dir self) = CHR ''/''
                   then img_dir self @ name
                 else img_dir self @ ''/'' @ name)"
  shows "getitem w self (- k) = getitem w self (len self - k)
       \<and> (image_labels self ! nat (len self - k) = PyStr name # rest
            \<longrightarrow> image_reads (snd (getitem w self (- k))) = image_reads w @ [path])
       \<and> (\<forall>label rest' t ft l.
            image_labels self ! nat (len self - k) = PyStr name # label # rest'
            \<and> images w path = Some (Image t)
            \<and> (case transform self of
                 None \<Rightarrow> ft = t
               | Some c \<Rightarrow> if truth_value c then invoke c t = Inr ft else ft = t)
            \<and> (case target_transform self of
                 None \<Rightarrow> l = label
               | Some c \<Rightarrow> if truth_value c then invoke c label = Inr l else l = label)
            \<longrightarrow> fst (getitem w self (- k)) = Inr (ft, l))
       \<and> (image_labels self ! nat (len self - k) = PyStr name # rest
            \<and> images w path = None
            \<longrightarrow> fst (getitem w self (- k)) = Inl SampleNotFoundError)"
proof -
  from assms have il: "\<And>c. iloc (image_labels self) (- k) c
      = iloc (image_labels self) (len self - k) c"
    by (simp add: iloc_negative len_def)
  have eq: "getitem w self (- k) = getitem w self (len self - k)"
    unfolding getitem_def il by (rule refl)
  from assms have v: "0 \<le> len self - k" "len self - k < len self" by simp_all
  have pj: "posix_join (img_dir self) name = path"
    unfolding assms(3) by (rule posix_join_explicit)
  have p2: "image_labels self ! nat (len self - k) = PyStr name # rest
            \<longrightarrow> image_reads (snd (getitem w self (len self - k))) = image_reads w @ [path]"
  proof
    assume r: "image_labels self ! nat (len self - k) = PyStr name # rest"
    show "image_reads (snd (getitem w self (len self - k))) = image_reads w @ [path]"
      by (simp add: getitem_row [OF v r, of w] pj)
  qed
  have p3: "\<forall>label rest' t ft l.
            image_labels self ! nat (len self - k) = PyStr name # label # rest'
            \<and> images w path = Some (Image t)
            \<and> (case transform self of
                 None \<Rightarrow> ft = t
               | Some c \<Rightarrow> if truth_value c then invoke c t = Inr ft else ft = t)
            \<and> (case target_transform self of
                 None \<Rightarrow> l = label
               | Some c \<Rightarrow> if truth_value c then invoke c label = Inr l else l = label)
            \<longrightarrow> fst (getitem w self (len self - k)) = Inr (ft, l)"
  proof (intro allI impI)
    fix label rest' t ft l
    assume a: "image_labels self ! nat (len self - k) = PyStr name # label # rest'
            \<and> images w path = Some (Image t)
            \<and> (case transform self of
                 None \<Rightarrow> ft = t
               | Some c \<Rightarrow> if truth_value c then invoke c t = Inr ft else ft = t)
            \<and> (case target_transform self of
                 None \<Rightarrow> l = label
               | Some c \<Rightarrow> if truth_value c then invoke c label = Inr l else l = label)"
    then have r: "image_labels self ! nat (len self - k) = PyStr name # label # rest'" by simp
    from a show "fst (getitem w self (len self - k)) = Inr (ft, l)"
      unfolding getitem_sample [OF v r, of w, unfolded pj] apply_transform_cases by blast
  qed
  have p4: "image_labels self ! nat (len self - k) = PyStr name # rest
            \<and> images w path = None
            \<longrightarrow> fst (getitem w self (len self - k)) = Inl SampleNotFoundError"
  proof
    assume a: "image_labels self ! nat (len self - k) = PyStr name # rest
            \<and> images w path = None"
    then have r: "image_labels self ! nat (len self - k) = PyStr name # rest" by simp
    from a show "fst (getitem w self (len self - k)) = Inl SampleNotFoundError"
      by (simp add: getitem_row [OF v r, of w] pj)
  qed
  from eq p2 p3 p4 show ?thesis by simp
qed

theorem getitem_negative_witness:
  "(1::int) \<le> 1 \<and> 1 \<le> len example_dataset
   \<and> getitem example_world example_dataset (- 1) = getitem example_world example_dataset 2
   \<and> image_labels example_dataset ! nat 2 = [PyStr ''shirt.png'', PyInt 0]
   \<and> images example_world ''img/shirt.png'' = Some (Image (PyTensor [1, 1, 2] [17, 4]))
   \<and> fst (getitem example_world example_dataset (- 1))
       = Inr (PyTensor [1, 1, 2] [17, 4], PyTensor [10] [1, 0, 0, 0, 0, 0, 0, 0, 0, 0])"
proof -
  have l: "len example_dataset = 3" by (simp add: len_def example_dataset_def example_rows_def)
  then have h: "(1::int) \<le> 1" "1 \<le> len example_dataset" by simp_all
  have pth: "''img/shirt.png'' =
      (if ''shirt.png'' \<noteq> [] \<and> hd ''shirt.png'' = CHR ''/'' then ''shirt.png''
       else if img_dir example_dataset = [] \<or> last (img_dir example_dataset) = CHR ''/''
         then img_dir example_dataset @ ''shirt.png''
       else img_dir example_dataset @ ''/'' @ ''shirt.png'')"
    by (simp add: example_dataset_def)
  have row: "image_labels example_dataset ! nat (len example_dataset - 1)
      = PyStr ''shirt.png'' # PyInt 0 # []"
    by (simp add: l) (simp add: example_dataset_def example_rows_def)
  have row2: "image_labels example_dataset ! nat 2 = [PyStr ''shirt.png'', PyInt 0]"
    by (simp add: example_dataset_def example_rows_def)
  have im: "images example_world ''img/shirt.png'' = Some (Image (PyTensor [1, 1, 2] [17, 4]))"
    by (simp add: example_world_def)
  have tr: "(case transform example_dataset of
               None \<Rightarrow> PyTensor [1, 1, 2] [17, 4] = PyTensor [1, 1, 2] [17, 4]
             | Some c \<Rightarrow> if truth_value c
                 then invoke c (PyTensor [1, 1, 2] [17, 4]) = Inr (PyTensor [1, 1, 2] [17, 4])
                 else PyTensor [1, 1, 2] [17, 4] = PyTensor [1, 1, 2] [17, 4])"
    by (simp add: example_dataset_def)
  have tt: "(case target_transform example_dataset of
               None \<Rightarrow> PyTensor [10] [1, 0, 0, 0, 0, 0, 0, 0, 0, 0] = PyInt 0
             | Some c \<Rightarrow> if truth_value c
                 then invoke c (PyInt 0) = Inr (PyTensor [10] [1, 0, 0, 0, 0, 0, 0, 0, 0, 0])
                 else PyTensor [10] [1, 0, 0, 0, 0, 0, 0, 0, 0, 0] = PyInt 0)"
    by (simp add: example_dataset_def one_hot_lambda_def one_hot_zero)
  note t = getitem_negative [OF h pth, of example_world]
  from t have e: "getitem example_world example_dataset (- 1)
      = getitem example_world example_dataset 2" by (simp add: l)
  from t row im tr tt have "fst (getitem example_world example_dataset (- 1))
       = Inr (PyTensor [1, 1, 2] [17, 4], PyTensor [10] [1, 0, 0, 0, 0, 0, 0, 0, 0, 0])"
    by blast
  with h e row2 im show ?thesis by simp
qed

section \<open>Properties of the one-hot transform\<close>

text \<open>
  C9. For a label \<open>y\<close> with \<open>0 \<le> y < 10\<close> the one-hot lambda returns a vector of ten
  entries, \<open>1\<close> at position \<open>y\<close> and \<open>0\<close> at the nine others.
\<close>

theorem one_hot_vector:
  assumes "0 \<le> y" and "y < 10"
  shows "\<exists>xs. one_hot y = Inr xs \<and> length xs = 10
           \<and> xs ! nat y = 1
           \<and> (\<forall>k. k < 10 \<and> k \<noteq> nat y \<longrightarrow> xs ! k = 0)"
proof -
  have "one_hot y = Inr ((zeros 10)[nat y := 1])"
    using assms by (simp add: one_hot_def scatter_def zeros_def)
  moreover have "length ((zeros 10)[nat y := 1]) = 10" by (simp add: zeros_def)
  moreover have "(zeros 10)[nat y := 1] ! nat y = 1" using assms by (simp add: zeros_def)
  moreover have "\<forall>k. k < 10 \<and> k \<noteq> nat y \<longrightarrow> (zeros 10)[nat y := 1] ! k = 0"
    by (simp add: zeros_def)
  ultimately show ?thesis by blast
qed

theorem one_hot_vector_witness:
  "(0::int) \<le> 3 \<and> (3::int) < 10 \<and> one_hot 3 = Inr [0, 0, 0, 1, 0, 0, 0, 0, 0, 0]
   \<and> (\<exists>xs. one_hot 3 = Inr xs \<and> length xs = 10 \<and> xs ! nat 3 = 1)"
proof -
  have "\<exists>xs. one_hot 3 = Inr xs \<and> length xs = 10 \<and> xs ! nat 3 = 1"
    using one_hot_vector [of 3] by auto
  moreover have "one_hot 3 = Inr [0, 0, 0, 1, 0, 0, 0, 0, 0, 0]"
    by (simp add: one_hot_def scatter_def zeros_def numeral_eq_Suc)
  ultimately show ?thesis by simp
qed

section \<open>Properties of the batch iterator\<close>

declare batches.simps [simp del]

lemma ceil_div_small: "0 < n \<Longrightarrow> n \<le> b \<Longrightarrow> (n + b - 1) div b = (1::nat)"
proof -
  assume a: "0 < n" "n \<le> b"
  then have "b * 1 \<le> n + b - 1" "n + b - 1 < b * Suc 1" by simp_all
  then show ?thesis by (rule div_nat_eqI)
qed

lemma ceil_div_step: "0 < b \<Longrightarrow> b < n \<Longrightarrow> (n + b - 1) div b = Suc ((n - b + b - 1) div b)" for b n :: nat
proof -
  assume a: "0 < b" "b < n"
  define m where "m = n - 1"
  from a have e1: "n + b - 1 = m + b" and e2: "n - b + b - 1 = m"
    by (simp_all add: m_def)
  have "(m + b) div b = Suc (m div b)" using a(1) by simp
  then show ?thesis by (simp only: e1 e2)
qed

lemma length_batches: "0 < b \<Longrightarrow> length (batches b xs) = (length xs + b - 1) div b"
proof (induction b xs rule: batches.induct)
  case (1 b xs)
  show ?case
  proof (cases "xs = []")
    case True
    then show ?thesis using 1(2) by (simp add: batches.simps)
  next
    case False
    with 1 have ih: "length (batches b (drop b xs)) = (length (drop b xs) + b - 1) div b" by simp
    have unf: "batches b xs = take b xs # batches b (drop b xs)"
      using False 1(2) by (subst batches.simps) simp
    show ?thesis
    proof (cases "length xs \<le> b")
      case True
      from False have "0 < length xs" by simp
      then have "(length xs + b - 1) div b = 1" using True by (rule ceil_div_small)
      moreover from True have "batches b (drop b xs) = []" by (simp add: batches.simps)
      ultimately show ?thesis by (simp add: unf)
    next
      case F: False
      then have "b < length xs" by simp
      with 1(2) have "(length xs + b - 1) div b = Suc ((length xs - b + b - 1) div b)"
        by (rule ceil_div_step)
      with ih unf show ?thesis by simp
    qed
  qed
qed

lemma ceil_div_full:
  fixes n b k :: nat
  assumes "0 < b" "Suc k < (n + b - 1) div b"
  shows "Suc k * b \<le> n"
proof -
  from assms(2) have "Suc (Suc k) \<le> (n + b - 1) div b" by simp
  then have "Suc (Suc k) * b \<le> ((n + b - 1) div b) * b" by (rule mult_le_mono1)
  also have "\<dots> \<le> n + b - 1" by (rule div_times_less_eq_dividend)
  finally have "Suc k * b + b \<le> n + b - 1" by simp
  with assms(1) show ?thesis by linarith
qed

lemma ceil_div_exact:
  fixes n b :: nat
  assumes "0 < b" "0 < n"
  shows "((n + b - 1) div b - 1) * b + (if n mod b = 0 then b else n mod b) = n"
proof -
  define d where "d = n div b"
  define r where "r = n mod b"
  have n: "n = b * d + r" by (simp add: d_def r_def)
  have rb: "r < b" using assms(1) by (simp add: r_def)
  show ?thesis
  proof (cases "r = 0")
    case True
    with n assms(2) have d: "0 < d" by (cases d) simp_all
    from n True have nd: "n = b * d" by simp
    have "b * d \<le> b * d + b - 1" "b * d + b - 1 < b * Suc d"
      using assms(1) by simp_all
    then have "b * d \<le> n + b - 1" "n + b - 1 < b * Suc d"
      by (simp_all only: nd)
    then have "(n + b - 1) div b = d" by (rule div_nat_eqI)
    moreover have "(d - 1) * b + b = b * d" using d by (cases d) simp_all
    ultimately show ?thesis using True nd by (simp add: r_def)
  next
    case False
    have "b * Suc d \<le> b * d + r + b - 1" "b * d + r + b - 1 < b * Suc (Suc d)"
      using False rb by simp_all
    then have "b * Suc d \<le> n + b - 1" "n + b - 1 < b * Suc (Suc d)"
      using n by simp_all
    then have "(n + b - 1) div b = Suc d" by (rule div_nat_eqI)
    moreover have "n mod b \<noteq> 0" using False by (simp add: r_def)
    moreover have "d * b + n mod b = n" by (simp add: d_def)
    ultimately show ?thesis by simp
  qed
qed

lemma ceil_div_real:
  fixes n b :: nat
  assumes "0 < b"
  shows "\<lceil>real n / real b\<rceil> = int ((n + b - 1) div b)"
proof (cases "n = 0")
  case True
  then show ?thesis using assms by simp
next
  case False
  define q where "q = (n + b - 1) div b"
  define s where "s = (if n mod b = 0 then b else n mod b)"
  from False assms have e: "(q - 1) * b + s = n"
    unfolding q_def s_def by (intro ceil_div_exact) simp_all
  have s: "0 < s" "s \<le> b" using assms by (auto simp: s_def intro: less_imp_le)
  have q: "0 < q"
  proof (rule ccontr)
    assume "\<not> 0 < q"
    then have "q = 0" by simp
    with e have "s = n" by simp
    moreover have "b \<le> n + b - 1" using False by simp
    then have "1 \<le> (n + b - 1) div b" using assms by (simp add: Suc_le_eq div_greater_zero_iff)
    ultimately show False using \<open>q = 0\<close> by (simp add: q_def)
  qed
  have rn: "real n = real (q - 1) * real b + real s"
    using e by (metis of_nat_add of_nat_mult)
  have bpos: "0 < real b" using assms by simp
  have "real n / real b = real (q - 1) + real s / real b"
    using bpos by (simp add: rn add_divide_distrib)
  moreover have "0 < real s / real b" using s bpos by simp
  moreover have "real s / real b \<le> 1" using s bpos by simp
  ultimately have "of_int (int (q - 1)) < real n / real b"
    "real n / real b \<le> of_int (int (q - 1)) + 1" by simp_all
  then have "\<lceil>real n / real b\<rceil> = int (q - 1) + 1" by (rule ceiling_eq)
  then show ?thesis using q by (simp add: q_def)
qed

lemma concat_batches: "0 < b \<Longrightarrow> concat (batches b xs) = xs"
proof (induction b xs rule: batches.induct)
  case (1 b xs)
  show ?case
  proof (cases "xs = []")
    case True
    then show ?thesis by (simp add: batches.simps)
  next
    case False
    with 1 have "concat (batches b (drop b xs)) = drop b xs" by simp
    with False 1(2) show ?thesis
      by (subst batches.simps) simp
  qed
qed

lemma batches_nth:
  "0 < b \<Longrightarrow> k < length (batches b xs) \<Longrightarrow> batches b xs ! k = take b (drop (k * b) xs)"
proof (induction b xs arbitrary: k rule: batches.induct)
  case (1 b xs)
  from 1(3) have ne: "xs \<noteq> []" by (auto simp: batches.simps)
  have unf: "batches b xs = take b xs # batches b (drop b xs)"
    using ne 1(2) by (subst batches.simps) simp
  show ?case
  proof (cases k)
    case 0
    then show ?thesis by (simp add: unf)
  next
    case (Suc j)
    with 1(3) unf have "j < length (batches b (drop b xs))" by simp
    with 1 ne have "batches b (drop b xs) ! j = take b (drop (j * b) (drop b xs))" by simp
    then show ?thesis using Suc by (simp add: unf add.commute)
  qed
qed

lemma batches_full:
  assumes "0 < b" "Suc k < length (batches b xs)"
  shows "length (batches b xs ! k) = b"
proof -
  from assms have "Suc k < (length xs + b - 1) div b" by (simp add: length_batches)
  with assms(1) have le: "Suc k * b \<le> length xs" by (rule ceil_div_full)
  from assms have "batches b xs ! k = take b (drop (k * b) xs)" by (simp add: batches_nth)
  then have "length (batches b xs ! k) = min (length xs - k * b) b" by simp
  with le show ?thesis by simp
qed

lemma batches_last:
  assumes "0 < b" "xs \<noteq> []"
  shows "length (last (batches b xs)) = (if length xs mod b = 0 then b else length xs mod b)"
proof -
  define q where "q = (length xs + b - 1) div b"
  define s where "s = (if length xs mod b = 0 then b else length xs mod b)"
  have len: "length (batches b xs) = q" using assms(1) by (simp add: length_batches q_def)
  from assms have e: "(q - 1) * b + s = length xs"
    unfolding q_def s_def by (intro ceil_div_exact) simp_all
  have s: "s \<le> b" using assms(1) by (auto simp: s_def intro: less_imp_le)
  have ne: "batches b xs \<noteq> []" using assms by (subst batches.simps) simp
  then have q: "0 < q" using len by (cases "batches b xs") auto
  from ne have "last (batches b xs) = batches b xs ! (q - 1)" by (simp add: last_conv_nth len)
  also have "\<dots> = take b (drop ((q - 1) * b) xs)" using assms(1) q len by (simp add: batches_nth)
  finally have "length (last (batches b xs)) = min (length xs - (q - 1) * b) b" by simp
  also have "length xs - (q - 1) * b = s" using e by simp
  finally show ?thesis using s by (simp add: s_def)
qed

text \<open>
  C7. Without shuffling and with a positive batch size, the batches of one pass, read one
  after the other, are exactly the indices \<open>0, 1, \<dots>, n - 1\<close> in ascending order, each
  once.
\<close>

theorem epoch_sequential:
  assumes "0 < batch_size dl" and "\<not> shuffle dl"
  shows "concat (epoch dl n perm) = [0..<n]
       \<and> distinct (concat (epoch dl n perm))
       \<and> set (concat (epoch dl n perm)) = {0..<n}
       \<and> sorted (concat (epoch dl n perm))"
proof -
  from assms have "concat (epoch dl n perm) = [0..<n]"
    by (simp add: epoch_def index_order_def concat_batches)
  then show ?thesis by simp
qed

theorem epoch_sequential_witness:
  "0 < batch_size \<lparr>batch_size = 4, shuffle = False\<rparr>
   \<and> \<not> shuffle \<lparr>batch_size = 4, shuffle = False\<rparr>
   \<and> concat (epoch \<lparr>batch_size = 4, shuffle = False\<rparr> 10 []) = [0, 1, 2, 3, 4, 5, 6, 7, 8, 9]"
proof -
  have "[0..<10] = [0, 1, 2, 3, 4, 5, 6, 7, 8, 9::nat]" by (simp add: upt_rec)
  with epoch_sequential [of "\<lparr>batch_size = 4, shuffle = False\<rparr>" 10 "[]"]
  show ?thesis by simp
qed

text \<open>
  C8. With a positive batch size \<open>b\<close>, one pass over a store of length \<open>n\<close> yields
  \<open>\<lceil>n / b\<rceil>\<close> batches; every batch but the last has \<open>b\<close> elements and the last has
  \<open>n mod b\<close>, or \<open>b\<close> when \<open>b\<close> divides \<open>n\<close>. Ten rows in batches of four without
  shuffling are the batches \<open>[0,1,2,3]\<close>, \<open>[4,5,6,7]\<close>, \<open>[8,9]\<close>.
\<close>

theorem epoch_batch_sizes:
  assumes "0 < batch_size dl" and "shuffle dl \<longrightarrow> length perm = n"
  shows "int (length (epoch dl n perm)) = \<lceil>real n / real (batch_size dl)\<rceil>
       \<and> (\<forall>k. Suc k < length (epoch dl n perm) \<longrightarrow>
              length (epoch dl n perm ! k) = batch_size dl)
       \<and> (epoch dl n perm \<noteq> [] \<longrightarrow>
            length (last (epoch dl n perm)) =
              (if n mod batch_size dl = 0 then batch_size dl else n mod batch_size dl))
       \<and> epoch \<lparr>batch_size = 4, shuffle = False\<rparr> 10 perm
            = [[0, 1, 2, 3], [4, 5, 6, 7], [8, 9]]"
proof -
  define xs where "xs = index_order dl n perm"
  have n: "length xs = n" using assms(2) by (simp add: xs_def index_order_def)
  have ep: "epoch dl n perm = batches (batch_size dl) xs" by (simp add: epoch_def xs_def)
  have c1: "int (length (epoch dl n perm)) = \<lceil>real n / real (batch_size dl)\<rceil>"
    using assms(1) by (simp add: ep length_batches n ceil_div_real)
  have c2: "\<forall>k. Suc k < length (epoch dl n perm) \<longrightarrow>
              length (epoch dl n perm ! k) = batch_size dl"
    using assms(1) by (simp add: ep batches_full)
  have c3: "epoch dl n perm \<noteq> [] \<longrightarrow>
            length (last (epoch dl n perm)) =
              (if n mod batch_size dl = 0 then batch_size dl else n mod batch_size dl)"
  proof
    assume "epoch dl n perm \<noteq> []"
    then have "xs \<noteq> []" by (auto simp: ep batches.simps)
    with assms(1) show "length (last (epoch dl n perm)) =
              (if n mod batch_size dl = 0 then batch_size dl else n mod batch_size dl)"
      using batches_last [of "batch_size dl" xs] by (simp add: ep n)
  qed
  have c4: "epoch \<lparr>batch_size = 4, shuffle = False\<rparr> 10 perm
            = [[0, 1, 2, 3], [4, 5, 6, 7], [8, 9]]"
    by (simp add: epoch_def index_order_def batches.simps upt_rec)
  from c1 c2 c3 c4 show ?thesis by blast
qed

theorem epoch_batch_sizes_witness:
  "0 < batch_size \<lparr>batch_size = 4, shuffle = False\<rparr>
   \<and> \<not> shuffle \<lparr>batch_size = 4, shuffle = False\<rparr>
   \<and> length (epoch \<lparr>batch_size = 4, shuffle = False\<rparr> 10 []) = 3
   \<and> map length (epoch \<lparr>batch_size = 4, shuffle = False\<rparr> 10 []) = [4, 4, 2]
   \<and> length (last (epoch \<lparr>batch_size = 4, shuffle = False\<rparr> 10 [])) = 10 mod 4"
proof -
  have "epoch \<lparr>batch_size = 4, shuffle = False\<rparr> 10 [] = [[0, 1, 2, 3], [4, 5, 6, 7], [8, 9]]"
    using epoch_batch_sizes [of "\<lparr>batch_size = 4, shuffle = False\<rparr>" "[]" 10] by simp
  then show ?thesis by simp
qed

end
